theory Spec2Isabelle
  imports Main
begin

section \<open>JS Input TimeSuggestion: the duration parser and its two formatters\<close>

text \<open>
  The development embeds the three pure functions of \<^verbatim>\<open>js-input-time-suggestion.js\<close>:
  \<^verbatim>\<open>parseDuration\<close> (lines 81-140), \<^verbatim>\<open>formatSuggestion\<close> (lines 146-151) and
  \<^verbatim>\<open>formatHMS\<close> (lines 157-162), together with the parts of the JavaScript
  standard library they call.

  Scope of the model.
  \<^item> A JavaScript string is a sequence of UTF-16 code units. A \<^typ>\<open>string\<close> here is a
    sequence of code units below 256 (the Latin-1 range, which contains every character
    the program's patterns mention). White space, lower-casing and case-insensitive
    comparison are written out for that range; the range is closed under all of them.
  \<^item> A JavaScript Number is modelled as \<open>NaN\<close> or an exact integer. JavaScript Numbers
    are exact on integers of magnitude up to \<open>2^53\<close> (\<open>max_exact\<close> below); beyond that
    \<open>parseInt\<close> and the arithmetic round, and \<open>String\<close> stops printing every digit, which
    the model does not follow. The specification leaves such values to the host
    (section 4.1, overflow policy). Every statement below that ranges over numbers is
    therefore made for values up to \<open>max_exact\<close>, where the model and the code agree.
    Negative zero is identified with zero: nothing in the three functions tells them apart.
\<close>

subsection \<open>Characters\<close>

definition is_digit :: "char \<Rightarrow> bool" where
  \<comment> \<open>the class \<open>\d\<close>, and the digits \<open>parseInt\<close> accepts in radix 10\<close>
  "is_digit c = (c \<in> set ''0123456789'')"

definition digit_val :: "char \<Rightarrow> nat" where
  "digit_val c = of_char c - 48"

definition digit_char :: "nat \<Rightarrow> char" where
  "digit_char n = char_of (48 + n)"

definition is_space :: "char \<Rightarrow> bool" where
  \<comment> \<open>WhiteSpace and LineTerminator below 256: TAB, LF, VT, FF, CR, SP, NBSP.
      This is the class \<open>\s\<close>, what \<open>trim\<close> strips and what \<open>parseInt\<close> skips.\<close>
  "is_space c = (c \<in> set [CHR 0x09, CHR 0x0A, CHR 0x0B, CHR 0x0C, CHR 0x0D, CHR 0x20, CHR 0xA0])"

definition lower_char :: "char \<Rightarrow> char" where
  \<comment> \<open>A-Z, and the Latin-1 capitals 0xC0-0xDE without the multiplication sign 0xD7\<close>
  "lower_char c =
     (let n = of_char c :: nat in
      if (65 \<le> n \<and> n \<le> 90) \<or> (192 \<le> n \<and> n \<le> 222 \<and> n \<noteq> 215)
      then char_of (n + 32) else c)"

definition upper_char :: "char \<Rightarrow> char" where
  \<comment> \<open>a-z, and the Latin-1 small letters 0xE0-0xFE without the division sign 0xF7.
      The upper-case forms of 0xB5, 0xDF and 0xFF are not code units below 256 and
      are the form of no other such unit: leaving them fixed keeps every comparison.\<close>
  "upper_char c =
     (let n = of_char c :: nat in
      if (97 \<le> n \<and> n \<le> 122) \<or> (224 \<le> n \<and> n \<le> 254 \<and> n \<noteq> 247)
      then char_of (n - 32) else c)"

definition canonicalize :: "bool \<Rightarrow> char \<Rightarrow> char" where
  \<comment> \<open>Canonicalize of the RegExp semantics; the flag is \<open>ignoreCase\<close>\<close>
  "canonicalize ic c = (if ic then upper_char c else c)"

subsection \<open>Numbers\<close>

datatype number = NaN | Num int

definition max_exact :: nat where
  \<comment> \<open>the bound up to which every integer is a Number and the model is the code\<close>
  "max_exact = 2 ^ 53"

fun num_add :: "number \<Rightarrow> number \<Rightarrow> number" where
  "num_add (Num a) (Num b) = Num (a + b)"
| "num_add _ _ = NaN"

fun num_mul :: "number \<Rightarrow> number \<Rightarrow> number" where
  "num_mul (Num a) (Num b) = Num (a * b)"
| "num_mul _ _ = NaN"

fun num_rem :: "number \<Rightarrow> number \<Rightarrow> number" where
  \<comment> \<open>the operator \<open>%\<close>: the result has the sign of the dividend\<close>
  "num_rem (Num a) (Num b) = (if b = 0 then NaN else Num (sgn a * (\<bar>a\<bar> mod \<bar>b\<bar>)))"
| "num_rem _ _ = NaN"

fun strict_eq :: "number \<Rightarrow> number \<Rightarrow> bool" where
  \<comment> \<open>the operator \<open>===\<close> on Numbers: NaN equals nothing\<close>
  "strict_eq (Num a) (Num b) = (a = b)"
| "strict_eq _ _ = False"

fun num_gt :: "number \<Rightarrow> number \<Rightarrow> bool" where
  \<comment> \<open>the operator \<open>>\<close> on Numbers: false when either side is NaN\<close>
  "num_gt (Num a) (Num b) = (b < a)"
| "num_gt _ _ = False"

fun truthy :: "number \<Rightarrow> bool" where
  \<comment> \<open>ToBoolean of a Number: false for 0 and NaN\<close>
  "truthy (Num a) = (a \<noteq> 0)"
| "truthy NaN = False"

function decimal :: "nat \<Rightarrow> string" where
  "decimal n = (if n < 10 then [digit_char n] else decimal (n div 10) @ [digit_char (n mod 10)])"
  by pat_completeness auto
termination
  by (relation "measure (\<lambda>n. n)") auto

declare decimal.simps [simp del]

fun to_string :: "number \<Rightarrow> string" where
  \<comment> \<open>ToString of a Number, which is also \<open>String(x)\<close> and \<open>x + "..."\<close>; the code
      prints these digits for magnitudes up to \<open>max_exact\<close> (it rounds the digits above
      that, and writes an exponent from \<open>10^21\<close>)\<close>
  "to_string NaN = ''NaN''"
| "to_string (Num i) = (if i < 0 then CHR ''-'' # decimal (nat (- i)) else decimal (nat i))"

definition dec_value :: "string \<Rightarrow> nat" where
  \<comment> \<open>the value of a string of decimal digits\<close>
  "dec_value s = foldl (\<lambda>acc c. 10 * acc + digit_val c) 0 s"

definition parseInt10 :: "string \<Rightarrow> number" where
  \<comment> \<open>\<open>parseInt(s, 10)\<close>: skip leading white space, take an optional sign, then the
      longest prefix of digits; NaN when that prefix is empty. The code returns this
      value when it is at most \<open>max_exact\<close>, and the nearest Number above that.\<close>
  "parseInt10 s =
     (let s1 = dropWhile is_space s;
          sign = (case s1 of [] \<Rightarrow> 1 | x # _ \<Rightarrow> if x = CHR ''-'' then - 1 else (1::int));
          s2 = (case s1 of [] \<Rightarrow> [] | x # r \<Rightarrow> if x = CHR ''-'' \<or> x = CHR ''+'' then r else s1);
          z = takeWhile is_digit s2
      in if z = [] then NaN else Num (sign * int (dec_value z)))"

subsection \<open>Strings\<close>

definition trim :: "string \<Rightarrow> string" where
  "trim s = rev (dropWhile is_space (rev (dropWhile is_space s)))"

definition toLowerCase :: "string \<Rightarrow> string" where
  "toLowerCase s = map lower_char s"

definition remove_ws :: "string \<Rightarrow> string" where
  \<comment> \<open>\<open>replace(/\s+/g, '')\<close>: every run of white space is replaced by nothing\<close>
  "remove_ws s = filter (\<lambda>c. \<not> is_space c) s"

fun split_on :: "char \<Rightarrow> string \<Rightarrow> string list" where
  \<comment> \<open>\<open>s.split(sep)\<close> for a one-character separator; the empty string gives one empty part\<close>
  "split_on sep [] = [[]]"
| "split_on sep (x # xs) =
     (if x = sep then [] # split_on sep xs
      else (x # hd (split_on sep xs)) # tl (split_on sep xs))"

definition padStart :: "nat \<Rightarrow> char \<Rightarrow> string \<Rightarrow> string" where
  \<comment> \<open>\<open>s.padStart(n, c)\<close> for a one-character filler: strings of length n or more are unchanged\<close>
  "padStart n c s = replicate (n - length s) c @ s"

subsection \<open>Regular expressions\<close>

text \<open>
  The four patterns of \<^verbatim>\<open>parseDuration\<close> use start and end anchors, literal characters,
  \<open>\d\<close>, the class \<open>[:.]\<close>, sequence, alternation, the greedy quantifiers \<open>?\<close> and
  \<open>+\<close>, and capturing groups. The matcher below is the backtracking matcher of the
  language definition for that fragment, in continuation-passing style: a matcher gets
  the rest of the input, the captures so far and a continuation, and answers with the
  captures of the first successful way to match, or \<open>None\<close>.
\<close>

datatype regex =
    Eps
  | Bol
  | Eol
  | Lit char
  | Digit
  | OneOf "char list"
  | Seq regex regex
  | Alt regex regex
  | Opt regex
  | Star regex
  | Plus regex
  | Group nat regex

type_synonym captures = "nat \<Rightarrow> string option"

fun rweight :: "regex \<Rightarrow> nat" where
  "rweight (Seq r1 r2) = Suc (rweight r1 + rweight r2)"
| "rweight (Alt r1 r2) = Suc (rweight r1 + rweight r2)"
| "rweight (Opt r) = Suc (rweight r)"
| "rweight (Star r) = Suc (rweight r)"
| "rweight (Plus r) = Suc (Suc (rweight r))"
| "rweight (Group i r) = Suc (rweight r)"
| "rweight _ = 0"

function matcher ::
  "bool \<Rightarrow> nat \<Rightarrow> regex \<Rightarrow> string \<Rightarrow> captures \<Rightarrow> (string \<Rightarrow> captures \<Rightarrow> captures option)
     \<Rightarrow> captures option" where
  \<comment> \<open>\<open>ic\<close> is the flag \<open>i\<close>, \<open>len\<close> the length of the whole input, \<open>s\<close> the rest of it\<close>
  "matcher ic len Eps s c k = k s c"
| "matcher ic len Bol s c k = (if length s = len then k s c else None)"
| "matcher ic len Eol s c k = (if s = [] then k s c else None)"
| "matcher ic len (Lit a) s c k =
     (case s of [] \<Rightarrow> None
      | x # xs \<Rightarrow> if canonicalize ic x = canonicalize ic a then k xs c else None)"
| "matcher ic len Digit s c k =
     (case s of [] \<Rightarrow> None | x # xs \<Rightarrow> if is_digit x then k xs c else None)"
| "matcher ic len (OneOf as) s c k =
     (case s of [] \<Rightarrow> None
      | x # xs \<Rightarrow> if canonicalize ic x \<in> set (map (canonicalize ic) as) then k xs c else None)"
| "matcher ic len (Seq r1 r2) s c k =
     matcher ic len r1 s c (\<lambda>s' c'. matcher ic len r2 s' c' k)"
| "matcher ic len (Alt r1 r2) s c k =
     (case matcher ic len r1 s c k of Some m \<Rightarrow> Some m | None \<Rightarrow> matcher ic len r2 s c k)"
| "matcher ic len (Opt r) s c k =
     (case matcher ic len r s c (\<lambda>s' c'. if length s' < length s then k s' c' else None) of
        Some m \<Rightarrow> Some m
      | None \<Rightarrow> k s c)"
| "matcher ic len (Star r) s c k =
     (case matcher ic len r s c
             (\<lambda>s' c'. if length s' < length s then matcher ic len (Star r) s' c' k else None) of
        Some m \<Rightarrow> Some m
      | None \<Rightarrow> k s c)"
| "matcher ic len (Plus r) s c k =
     matcher ic len r s c (\<lambda>s' c'. matcher ic len (Star r) s' c' k)"
| "matcher ic len (Group i r) s c k =
     matcher ic len r s c (\<lambda>s' c'. k s' (c'(i \<mapsto> take (length s - length s') s)))"
  by pat_completeness auto
termination
  by (relation "measures [\<lambda>(ic, len, r, s, c, k). rweight r, \<lambda>(ic, len, r, s, c, k). length s]")
     auto

declare matcher.simps [simp del]

fun exec_from :: "bool \<Rightarrow> nat \<Rightarrow> regex \<Rightarrow> string \<Rightarrow> captures option" where
  \<comment> \<open>the search for a match: at the current position first, then one character on\<close>
  "exec_from ic len r [] = matcher ic len r [] Map.empty (\<lambda>s' c'. Some c')"
| "exec_from ic len r (x # xs) =
     (case matcher ic len r (x # xs) Map.empty (\<lambda>s' c'. Some c') of
        Some m \<Rightarrow> Some m
      | None \<Rightarrow> exec_from ic len r xs)"

definition regex_match :: "bool \<Rightarrow> regex \<Rightarrow> string \<Rightarrow> captures option" where
  \<comment> \<open>\<open>s.match(re)\<close> for a pattern without the flag \<open>g\<close>: \<open>None\<close> is \<open>null\<close>, and
      \<open>m i\<close> is \<open>match[i]\<close> for a group \<open>i\<close>, \<open>None\<close> standing for \<open>undefined\<close>\<close>
  "regex_match ic r s = exec_from ic (length s) r s"

fun lits :: "string \<Rightarrow> regex" where
  \<comment> \<open>a word of the pattern, character by character\<close>
  "lits [] = Eps"
| "lits [a] = Lit a"
| "lits (a # as) = Seq (Lit a) (lits as)"

definition re_hms :: regex where
  \<comment> \<open>\<^verbatim>\<open>/^(\d+):(\d+):(\d+)$/\<close>\<close>
  "re_hms =
     Seq Bol (Seq (Group 1 (Plus Digit)) (Seq (Lit CHR '':'') (Seq (Group 2 (Plus Digit))
       (Seq (Lit CHR '':'') (Seq (Group 3 (Plus Digit)) Eol)))))"

definition re_hours :: regex where
  \<comment> \<open>\<^verbatim>\<open>/^(\d+)(?:h|hours)?(?:[:.]?(\d+))?$/i\<close>\<close>
  "re_hours =
     Seq Bol (Seq (Group 1 (Plus Digit)) (Seq (Opt (Alt (Lit CHR ''h'') (lits ''hours'')))
       (Seq (Opt (Seq (Opt (OneOf '':.'')) (Group 2 (Plus Digit)))) Eol)))"

definition re_minutes :: regex where
  \<comment> \<open>\<^verbatim>\<open>/^(\d+)(?:m|min(?:utes)?)?$/i\<close>\<close>
  "re_minutes =
     Seq Bol (Seq (Group 1 (Plus Digit))
       (Seq (Opt (Alt (Lit CHR ''m'') (Seq (lits ''min'') (Opt (lits ''utes''))))) Eol))"

definition re_bare :: regex where
  \<comment> \<open>\<^verbatim>\<open>/^(\d+)(?:[:.]?(\d+))?$/\<close>\<close>
  "re_bare =
     Seq Bol (Seq (Group 1 (Plus Digit))
       (Seq (Opt (Seq (Opt (OneOf '':.'')) (Group 2 (Plus Digit)))) Eol))"

subsection \<open>The duration and the three functions\<close>

record duration =
  hours :: number
  minutes :: number
  seconds :: number

definition js_string :: "string option \<Rightarrow> string" where
  \<comment> \<open>ToString of a capture: \<open>undefined\<close> becomes the string "undefined"\<close>
  "js_string v = (case v of None \<Rightarrow> ''undefined'' | Some s \<Rightarrow> s)"

definition truthy_str :: "string option \<Rightarrow> bool" where
  \<comment> \<open>ToBoolean of a capture: false for \<open>undefined\<close> and for the empty string\<close>
  "truthy_str v = (case v of None \<Rightarrow> False | Some s \<Rightarrow> s \<noteq> [])"

definition hm_duration :: "number \<Rightarrow> number \<Rightarrow> duration" where
  \<comment> \<open>\<^verbatim>\<open>seconds = hours * 3600 + minutes * 60\<close>, and the object returned; the code
      computes this value when the products and the sum stay within \<open>max_exact\<close>\<close>
  "hm_duration h mi =
     \<lparr>hours = h, minutes = mi,
      seconds = num_add (num_mul h (Num 3600)) (num_mul mi (Num 60))\<rparr>"

definition preprocess :: "string \<Rightarrow> string" where
  \<comment> \<open>line 82: \<^verbatim>\<open>input.trim().toLowerCase().replace(/\s+/g, '')\<close>\<close>
  "preprocess raw = remove_ws (toLowerCase (trim raw))"

definition parseDuration :: "string \<Rightarrow> duration option" where
  "parseDuration raw =
     (let input = preprocess raw in
      if input = [] then None
      else if length (split_on CHR '':'' input) = 3 then
        (case regex_match False re_hms input of
           None \<Rightarrow> None
         | Some m \<Rightarrow>
             Some \<lparr>hours = parseInt10 (js_string (m 1)),
                   minutes = parseInt10 (js_string (m 2)),
                   seconds = parseInt10 (js_string (m 3))\<rparr>)
      else if CHR ''h'' \<in> set input then
        (case regex_match True re_hours input of
           None \<Rightarrow> None
         | Some m \<Rightarrow>
             Some (hm_duration (parseInt10 (js_string (m 1)))
                     (if truthy_str (m 2) then parseInt10 (js_string (m 2)) else Num 0)))
      else if CHR ''m'' \<in> set input then
        (case regex_match True re_minutes input of
           None \<Rightarrow> None
         | Some m \<Rightarrow>
             (let mi = parseInt10 (js_string (m 1)) in
              Some \<lparr>hours = Num 0, minutes = mi, seconds = num_mul mi (Num 60)\<rparr>))
      else if CHR '':'' \<in> set input then
        (let parts = split_on CHR '':'' input in
         if length parts = 2
         then Some (hm_duration (parseInt10 (parts ! 0)) (parseInt10 (parts ! 1)))
         else None)
      else if CHR ''.'' \<in> set input then
        (let parts = split_on CHR ''.'' input in
         if length parts = 2
         then Some (hm_duration (parseInt10 (parts ! 0)) (parseInt10 (parts ! 1)))
         else None)
      else
        (case regex_match False re_bare input of
           None \<Rightarrow> None
         | Some m \<Rightarrow>
             Some (hm_duration (parseInt10 (js_string (m 1)))
                     (if truthy_str (m 2) then parseInt10 (js_string (m 2)) else Num 0))))"

definition formatSuggestion :: "duration \<Rightarrow> string" where
  "formatSuggestion d =
     (if strict_eq (hours d) (Num 0) \<and> num_gt (minutes d) (Num 0)
      then to_string (minutes d) @ ''m''
      else (let s = to_string (hours d) @ ''h'' in
            if truthy (minutes d) then s @ '' '' @ to_string (minutes d) @ ''m'' else s))"

definition formatHMS :: "duration \<Rightarrow> string" where
  "formatHMS d =
     (let h = padStart 2 CHR ''0'' (to_string (hours d));
          m = padStart 2 CHR ''0'' (to_string (minutes d));
          s = padStart 2 CHR ''0'' (to_string (num_rem (seconds d) (Num 60)))
      in h @ '':'' @ m @ '':'' @ s)"

subsection \<open>Vocabulary of the statements\<close>

definition digits1 :: "string \<Rightarrow> bool" where
  \<comment> \<open>one or more decimal digits and nothing else\<close>
  "digits1 s = (s \<noteq> [] \<and> list_all is_digit s)"

definition hms_shape :: "string \<Rightarrow> bool" where
  \<comment> \<open>digits, a colon, digits, a colon, digits: stated on the parts, without the matcher\<close>
  "hms_shape s =
     (case split_on CHR '':'' s of
        [a, b, c] \<Rightarrow> digits1 a \<and> digits1 b \<and> digits1 c
      | _ \<Rightarrow> False)"

definition two_digits :: "nat \<Rightarrow> string" where
  \<comment> \<open>a natural number in decimal, zero-padded to a width of at least 2\<close>
  "two_digits n = (if n < 10 then CHR ''0'' # decimal n else decimal n)"

section \<open>Supporting lemmas\<close>

subsection \<open>Digits and decimal numerals\<close>

lemma digit_not_space: "is_digit c \<Longrightarrow> \<not> is_space c"
  by (auto simp: is_digit_def is_space_def)

lemma digit_lower: "is_digit c \<Longrightarrow> lower_char c = c"
  by (auto simp: is_digit_def lower_char_def)

lemma digit_not_sep: "is_digit c \<Longrightarrow> c \<noteq> CHR '':'' \<and> c \<noteq> CHR ''-'' \<and> c \<noteq> CHR ''+''"
  by (auto simp: is_digit_def)

lemma colon_plain: "\<not> is_space CHR '':'' \<and> lower_char CHR '':'' = CHR '':'' \<and> \<not> is_digit CHR '':''"
  by (simp add: is_space_def lower_char_def is_digit_def)

lemma digit_char_table: "map digit_char [0..<10] = ''0123456789''"
  by code_simp

lemma digit_char_is_digit:
  assumes "n < 10"
  shows "is_digit (digit_char n)"
proof -
  from assms have "digit_char n \<in> set (map digit_char [0..<10])"
    by simp
  then show ?thesis
    by (simp only: digit_char_table is_digit_def)
qed

lemma digit_val_digit_char: "n < 10 \<Longrightarrow> digit_val (digit_char n) = n"
  by (simp add: digit_val_def digit_char_def)

lemma dec_value_snoc: "dec_value (s @ [c]) = 10 * dec_value s + digit_val c"
  by (simp add: dec_value_def)

lemma dec_value_decimal: "dec_value (decimal n) = n"
proof (induction n rule: decimal.induct)
  case (1 n)
  show ?case
  proof (cases "n < 10")
    case True
    then show ?thesis
      by (subst decimal.simps) (simp add: dec_value_def digit_val_digit_char)
  next
    case False
    with 1 show ?thesis
      by (subst decimal.simps) (simp add: dec_value_snoc digit_val_digit_char)
  qed
qed

lemma decimal_digits1: "digits1 (decimal n)"
proof (induction n rule: decimal.induct)
  case (1 n)
  show ?case
  proof (cases "n < 10")
    case True
    then show ?thesis
      by (subst decimal.simps) (simp add: digits1_def digit_char_is_digit)
  next
    case False
    with 1 show ?thesis
      by (subst decimal.simps) (simp add: digits1_def digit_char_is_digit)
  qed
qed

lemma dec_value_zeros: "dec_value (replicate k CHR ''0'' @ s) = dec_value s"
  by (induction k) (simp_all add: dec_value_def digit_val_def)

lemma parseInt10_digits:
  assumes "digits1 s"
  shows "parseInt10 s = Num (int (dec_value s))"
proof -
  from assms obtain x xs where s: "s = x # xs" and x: "is_digit x" and all: "list_all is_digit s"
    by (cases s) (auto simp: digits1_def)
  have tw: "takeWhile is_digit xs = xs"
    using all s by (simp add: list_all_iff)
  have dw: "dropWhile is_space s = s"
    using s x by (simp add: digit_not_space)
  show ?thesis
    unfolding parseInt10_def dw
    using s x digit_not_sep [OF x] by (simp add: Let_def tw)
qed

subsection \<open>Splitting and preprocessing\<close>

lemma split_on_nonempty: "split_on sep s \<noteq> []"
  by (induction s) auto

lemma split_on_no_sep: "sep \<notin> set s \<Longrightarrow> split_on sep s = [s]"
  by (induction s) auto

lemma split_on_append: "sep \<notin> set a \<Longrightarrow> split_on sep (a @ sep # r) = a # split_on sep r"
  by (induction a) auto

lemma split_on_join1: "split_on sep s = [a] \<Longrightarrow> s = a"
proof (induction s arbitrary: a)
  case Nil
  then show ?case by simp
next
  case (Cons x xs)
  then show ?case
    using split_on_nonempty [of sep xs]
    by (cases "split_on sep xs") (auto split: if_splits)
qed

lemma split_on_join2: "split_on sep s = [a, b] \<Longrightarrow> s = a @ sep # b"
proof (induction s arbitrary: a)
  case Nil
  then show ?case by simp
next
  case (Cons x xs)
  then show ?case
    using split_on_nonempty [of sep xs]
    by (cases "split_on sep xs") (auto split: if_splits dest: split_on_join1)
qed

lemma split_on_join3: "split_on sep s = [a, b, c] \<Longrightarrow> s = a @ sep # b @ sep # c"
proof (induction s arbitrary: a)
  case Nil
  then show ?case by simp
next
  case (Cons x xs)
  then show ?case
    using split_on_nonempty [of sep xs]
    by (cases "split_on sep xs") (auto split: if_splits dest: split_on_join2)
qed

lemma trim_plain: "\<forall>c\<in>set s. \<not> is_space c \<Longrightarrow> trim s = s"
proof -
  assume a: "\<forall>c\<in>set s. \<not> is_space c"
  have "dropWhile is_space t = t" if "\<forall>c\<in>set t. \<not> is_space c" for t
    using that by (cases t) auto
  from this [of s] this [of "rev s"] a show ?thesis by (simp add: trim_def)
qed

lemma preprocess_plain:
  assumes "\<forall>c\<in>set s. is_digit c \<or> c = CHR '':''"
  shows "preprocess s = s"
proof -
  have ns: "\<forall>c\<in>set s. \<not> is_space c"
    using assms digit_not_space colon_plain by auto
  have lw: "map lower_char s = s"
    by (rule map_idI) (use assms digit_lower colon_plain in auto)
  show ?thesis
    unfolding preprocess_def using ns lw by (simp add: trim_plain toLowerCase_def remove_ws_def)
qed

subsection \<open>The matcher on runs of digits\<close>

text \<open>
  A greedy \<open>\d+\<close> takes the whole run of digits first. When the continuation accepts
  there, that is the answer (the lemmas named \<open>greedy\<close>); and whatever the answer is, it
  comes from the continuation after some non-empty run of digits (the lemmas named
  \<open>sound\<close>).
\<close>

lemma canonicalize_plain [simp]: "canonicalize False c = c"
  by (simp add: canonicalize_def)

lemma star_digit_Nil: "matcher ic len (Star Digit) [] c k = k [] c"
  by (subst matcher.simps(10)) (simp add: matcher.simps(5))

lemma star_digit_Cons:
  "matcher ic len (Star Digit) (x # xs) c k =
     (if is_digit x
      then (case matcher ic len (Star Digit) xs c k of Some m \<Rightarrow> Some m | None \<Rightarrow> k (x # xs) c)
      else k (x # xs) c)"
  by (subst matcher.simps(10)) (simp add: matcher.simps(5))

lemma plus_digit_Nil: "matcher ic len (Plus Digit) [] c k = None"
  by (simp add: matcher.simps(5,11))

lemma plus_digit_Cons:
  "matcher ic len (Plus Digit) (x # xs) c k =
     (if is_digit x then matcher ic len (Star Digit) xs c k else None)"
  by (simp add: matcher.simps(5,11))

lemma star_digit_greedy:
  assumes "list_all is_digit ds" and "rest = [] \<or> \<not> is_digit (hd rest)"
    and "k rest c = Some r"
  shows "matcher ic len (Star Digit) (ds @ rest) c k = Some r"
  using assms
proof (induction ds)
  case Nil
  then show ?case by (cases rest) (auto simp: star_digit_Nil star_digit_Cons)
next
  case (Cons d ds)
  then show ?case by (simp add: star_digit_Cons)
qed

lemma plus_digit_greedy:
  assumes "digits1 ds" and "rest = [] \<or> \<not> is_digit (hd rest)" and "k rest c = Some r"
  shows "matcher ic len (Plus Digit) (ds @ rest) c k = Some r"
proof -
  from assms(1) obtain d ds' where ds: "ds = d # ds'" and d: "is_digit d"
    and ds': "list_all is_digit ds'"
    by (cases ds) (auto simp: digits1_def)
  have "matcher ic len (Star Digit) (ds' @ rest) c k = Some r"
    using ds' assms(2,3) by (rule star_digit_greedy)
  then show ?thesis
    using ds d by (simp add: plus_digit_Cons)
qed

lemma group_digits_greedy:
  assumes "digits1 ds" and "rest = [] \<or> \<not> is_digit (hd rest)"
    and "k rest (c(i \<mapsto> ds)) = Some r"
  shows "matcher ic len (Group i (Plus Digit)) (ds @ rest) c k = Some r"
proof -
  let ?k = "\<lambda>s' c'. k s' (c'(i \<mapsto> take (length (ds @ rest) - length s') (ds @ rest)))"
  have "?k rest c = Some r"
    using assms(3) by simp
  with assms(1,2) have "matcher ic len (Plus Digit) (ds @ rest) c ?k = Some r"
    by (rule plus_digit_greedy)
  then show ?thesis by (simp add: matcher.simps(12))
qed

lemma star_digit_sound:
  "matcher ic len (Star Digit) s c k = Some r \<Longrightarrow>
   \<exists>ds rest. s = ds @ rest \<and> list_all is_digit ds \<and> k rest c = Some r"
proof (induction s)
  case Nil
  then show ?case by (auto simp: star_digit_Nil)
next
  case (Cons x xs)
  show ?case
  proof (cases "is_digit x \<and> matcher ic len (Star Digit) xs c k \<noteq> None")
    case True
    with Cons.prems have "matcher ic len (Star Digit) xs c k = Some r"
      by (auto simp: star_digit_Cons)
    from Cons.IH [OF this] obtain ds rest where
      "xs = ds @ rest" "list_all is_digit ds" "k rest c = Some r"
      by blast
    with True have "x # xs = (x # ds) @ rest \<and> list_all is_digit (x # ds) \<and> k rest c = Some r"
      by simp
    then show ?thesis by blast
  next
    case False
    with Cons.prems have "k (x # xs) c = Some r"
      by (auto simp: star_digit_Cons split: if_splits option.splits)
    then have "x # xs = [] @ (x # xs) \<and> list_all is_digit [] \<and> k (x # xs) c = Some r"
      by simp
    then show ?thesis by blast
  qed
qed

lemma plus_digit_sound:
  assumes "matcher ic len (Plus Digit) s c k = Some r"
  shows "\<exists>ds rest. s = ds @ rest \<and> digits1 ds \<and> k rest c = Some r"
proof -
  from assms obtain x xs where s: "s = x # xs" and x: "is_digit x"
    and st: "matcher ic len (Star Digit) xs c k = Some r"
    by (cases s) (auto simp: plus_digit_Nil plus_digit_Cons split: if_splits)
  from star_digit_sound [OF st] obtain ds rest where
    "xs = ds @ rest" "list_all is_digit ds" "k rest c = Some r"
    by blast
  with s x have "s = (x # ds) @ rest \<and> digits1 (x # ds) \<and> k rest c = Some r"
    by (simp add: digits1_def)
  then show ?thesis by blast
qed

lemma group_digits_sound:
  assumes "matcher ic len (Group i (Plus Digit)) s c k = Some r"
  shows "\<exists>ds rest. s = ds @ rest \<and> digits1 ds \<and> k rest (c(i \<mapsto> ds)) = Some r"
proof -
  let ?k = "\<lambda>s' c'. k s' (c'(i \<mapsto> take (length s - length s') s))"
  from assms have "matcher ic len (Plus Digit) s c ?k = Some r"
    by (simp add: matcher.simps(12))
  from plus_digit_sound [OF this] obtain ds rest where
    "s = ds @ rest" "digits1 ds" "?k rest c = Some r"
    by blast
  then have "s = ds @ rest \<and> digits1 ds \<and> k rest (c(i \<mapsto> ds)) = Some r"
    by simp
  then show ?thesis by blast
qed

lemma lit_plain:
  "matcher False len (Lit a) s c k =
     (case s of [] \<Rightarrow> None | x # xs \<Rightarrow> if x = a then k xs c else None)"
  by (cases s) (simp_all add: matcher.simps(4))

lemma lit_sound:
  "matcher False len (Lit a) s c k = Some r \<Longrightarrow> \<exists>rest. s = a # rest \<and> k rest c = Some r"
  by (cases s) (auto simp: lit_plain split: if_splits)

lemma exec_from_past_start:
  "length t < len \<Longrightarrow> exec_from ic len (Seq Bol r) t = None"
  by (induction t) (auto simp: matcher.simps(2,7))

lemma regex_match_anchored:
  "regex_match ic (Seq Bol r) s = matcher ic (length s) r s Map.empty (\<lambda>s' c'. Some c')"
  by (cases s) (auto simp: regex_match_def exec_from_past_start matcher.simps(2,7) split: option.splits)


lemma eol_plain: "matcher ic len Eol s c k = (if s = [] then k s c else None)"
  by (simp add: matcher.simps(3))

lemma colon_not_digit: "\<not> is_digit CHR '':''"
  by (simp add: is_digit_def)

lemma re_hms_complete:
  assumes a: "digits1 a" and b: "digits1 b" and d: "digits1 d"
  shows "regex_match False re_hms (a @ CHR '':'' # b @ CHR '':'' # d) =
           Some [1 \<mapsto> a, 2 \<mapsto> b, 3 \<mapsto> d]"
proof -
  let ?K = "\<lambda>(s'::string) (c'::captures). Some c'"
  let ?r3 = "Seq (Group 3 (Plus Digit)) Eol"
  let ?r2 = "Seq (Group 2 (Plus Digit)) (Seq (Lit CHR '':'') ?r3)"
  let ?r1 = "Seq (Group 1 (Plus Digit)) (Seq (Lit CHR '':'') ?r2)"
  have 3: "matcher False n ?r3 d c ?K = Some (c(3 \<mapsto> d))" for c n
  proof -
    have "matcher False n (Group 3 (Plus Digit)) (d @ []) c
            (\<lambda>s' c'. matcher False n Eol s' c' ?K) = Some (c(3 \<mapsto> d))"
      using d by (rule group_digits_greedy) (simp_all add: eol_plain)
    then show ?thesis by (simp add: matcher.simps(7))
  qed
  have 2: "matcher False n ?r2 (b @ CHR '':'' # d) c ?K = Some (c(2 \<mapsto> b, 3 \<mapsto> d))" for c n
  proof -
    have "matcher False n (Group 2 (Plus Digit)) (b @ CHR '':'' # d) c
            (\<lambda>s' c'. matcher False n (Seq (Lit CHR '':'') ?r3) s' c' ?K)
          = Some (c(2 \<mapsto> b, 3 \<mapsto> d))"
      using b by (rule group_digits_greedy)
        (simp_all add: colon_not_digit matcher.simps(7) [of _ _ "Lit _"] lit_plain 3)
    then show ?thesis by (simp add: matcher.simps(7) [of _ _ "Group _ _"])
  qed
  have 1: "matcher False n ?r1 (a @ CHR '':'' # b @ CHR '':'' # d) Map.empty ?K
           = Some [1 \<mapsto> a, 2 \<mapsto> b, 3 \<mapsto> d]" for n
  proof -
    have "matcher False n (Group 1 (Plus Digit)) (a @ CHR '':'' # b @ CHR '':'' # d) Map.empty
            (\<lambda>s' c'. matcher False n (Seq (Lit CHR '':'') ?r2) s' c' ?K)
          = Some [1 \<mapsto> a, 2 \<mapsto> b, 3 \<mapsto> d]"
      using a by (rule group_digits_greedy)
        (simp_all add: colon_not_digit matcher.simps(7) [of _ _ "Lit _"] lit_plain 2)
    then show ?thesis by (simp add: matcher.simps(7) [of _ _ "Group _ _"])
  qed
  show ?thesis
    unfolding re_hms_def regex_match_anchored using 1 by simp
qed

lemma re_hms_sound:
  assumes "regex_match False re_hms s = Some m"
  shows "\<exists>a b d. s = a @ CHR '':'' # b @ CHR '':'' # d \<and> digits1 a \<and> digits1 b \<and> digits1 d
           \<and> m = [1 \<mapsto> a, 2 \<mapsto> b, 3 \<mapsto> d]"
proof -
  let ?K = "\<lambda>(s'::string) (c'::captures). Some c'"
  let ?n = "length s"
  let ?r3 = "Seq (Group 3 (Plus Digit)) Eol"
  let ?r2 = "Seq (Group 2 (Plus Digit)) (Seq (Lit CHR '':'') ?r3)"
  from assms have "matcher False ?n (Group 1 (Plus Digit)) s Map.empty
      (\<lambda>s' c'. matcher False ?n (Seq (Lit CHR '':'') ?r2) s' c' ?K) = Some m"
    by (simp add: re_hms_def regex_match_anchored matcher.simps(7) [of _ _ "Group _ _"])
  from group_digits_sound [OF this] obtain a r1 where
    s: "s = a @ r1" and a: "digits1 a"
    and m1: "matcher False ?n (Seq (Lit CHR '':'') ?r2) r1 [1 \<mapsto> a] ?K = Some m"
    by blast
  from m1 have "matcher False ?n (Lit CHR '':'') r1 [1 \<mapsto> a]
      (\<lambda>s' c'. matcher False ?n ?r2 s' c' ?K) = Some m"
    by (simp add: matcher.simps(7) [of _ _ "Lit _"])
  from lit_sound [OF this] obtain r2 where
    r1: "r1 = CHR '':'' # r2" and m2: "matcher False ?n ?r2 r2 [1 \<mapsto> a] ?K = Some m"
    by blast
  from m2 have "matcher False ?n (Group 2 (Plus Digit)) r2 [1 \<mapsto> a]
      (\<lambda>s' c'. matcher False ?n (Seq (Lit CHR '':'') ?r3) s' c' ?K) = Some m"
    by (simp add: matcher.simps(7) [of _ _ "Group _ _"])
  from group_digits_sound [OF this] obtain b r3 where
    r2: "r2 = b @ r3" and b: "digits1 b"
    and m3: "matcher False ?n (Seq (Lit CHR '':'') ?r3) r3 [1 \<mapsto> a, 2 \<mapsto> b] ?K = Some m"
    by blast
  from m3 have "matcher False ?n (Lit CHR '':'') r3 [1 \<mapsto> a, 2 \<mapsto> b]
      (\<lambda>s' c'. matcher False ?n ?r3 s' c' ?K) = Some m"
    by (simp add: matcher.simps(7) [of _ _ "Lit _"])
  from lit_sound [OF this] obtain r4 where
    r3: "r3 = CHR '':'' # r4" and m4: "matcher False ?n ?r3 r4 [1 \<mapsto> a, 2 \<mapsto> b] ?K = Some m"
    by blast
  from m4 have "matcher False ?n (Group 3 (Plus Digit)) r4 [1 \<mapsto> a, 2 \<mapsto> b]
      (\<lambda>s' c'. matcher False ?n Eol s' c' ?K) = Some m"
    by (simp add: matcher.simps(7) [of _ _ "Group _ _"])
  from group_digits_sound [OF this] obtain d r5 where
    r4: "r4 = d @ r5" and d: "digits1 d"
    and m5: "matcher False ?n Eol r5 [1 \<mapsto> a, 2 \<mapsto> b, 3 \<mapsto> d] ?K = Some m"
    by blast
  from m5 have "r5 = []" and "m = [1 \<mapsto> a, 2 \<mapsto> b, 3 \<mapsto> d]"
    by (auto simp: eol_plain split: if_splits)
  with s r1 r2 r3 r4 a b d
  have "s = a @ CHR '':'' # b @ CHR '':'' # d \<and> digits1 a \<and> digits1 b \<and> digits1 d
           \<and> m = [1 \<mapsto> a, 2 \<mapsto> b, 3 \<mapsto> d]"
    by simp
  then show ?thesis by blast
qed

subsection \<open>The hh:mm:ss branch\<close>

lemma digits1_no_colon: "digits1 a \<Longrightarrow> CHR '':'' \<notin> set a"
  using colon_not_digit by (auto simp: digits1_def list_all_iff)

lemma split_on_hms:
  assumes "digits1 a" "digits1 b" "digits1 d"
  shows "split_on CHR '':'' (a @ CHR '':'' # b @ CHR '':'' # d) = [a, b, d]"
  using assms by (simp add: split_on_append split_on_no_sep digits1_no_colon)

lemma parse_hms_input:
  assumes inp: "preprocess raw = a @ CHR '':'' # b @ CHR '':'' # d"
    and a: "digits1 a" and b: "digits1 b" and d: "digits1 d"
  shows "parseDuration raw =
           Some \<lparr>hours = Num (int (dec_value a)), minutes = Num (int (dec_value b)),
                 seconds = Num (int (dec_value d))\<rparr>"
proof -
  have sp: "length (split_on CHR '':'' (preprocess raw)) = 3"
    using split_on_hms [OF a b d] inp by simp
  have rm: "regex_match False re_hms (preprocess raw) = Some [1 \<mapsto> a, 2 \<mapsto> b, 3 \<mapsto> d]"
    using re_hms_complete [OF a b d] inp by simp
  have ne: "preprocess raw \<noteq> []"
    using inp by simp
  show ?thesis
    unfolding parseDuration_def Let_def
    using sp rm ne a b d by (simp add: js_string_def parseInt10_digits)
qed

subsection \<open>Zero-padding\<close>

lemma decimal_0: "decimal 0 = ''0''"
  by code_simp

lemma decimal_small: "n < 10 \<Longrightarrow> decimal n = [digit_char n]"
  by (subst decimal.simps) simp

lemma decimal_nonempty: "decimal n \<noteq> []"
  using decimal_digits1 [of n] by (simp add: digits1_def)

lemma decimal_large: "10 \<le> n \<Longrightarrow> 2 \<le> length (decimal n)"
proof -
  assume "10 \<le> n"
  then have "decimal n = decimal (n div 10) @ [digit_char (n mod 10)]"
    by (subst decimal.simps) simp
  moreover have "1 \<le> length (decimal (n div 10))"
    using decimal_nonempty [of "n div 10"] by (cases "decimal (n div 10)") simp_all
  ultimately show ?thesis by simp
qed

lemma padStart_decimal: "padStart 2 CHR ''0'' (decimal n) = two_digits n"
proof (cases "n < 10")
  case True
  then show ?thesis by (simp add: padStart_def two_digits_def decimal_small)
next
  case False
  then have "2 \<le> length (decimal n)" by (simp add: decimal_large)
  with False show ?thesis by (simp add: padStart_def two_digits_def)
qed

lemma two_digits_digits1: "digits1 (two_digits n)"
  using decimal_digits1 [of n] by (simp add: two_digits_def digits1_def is_digit_def)

lemma two_digits_length: "2 \<le> length (two_digits n)"
  by (simp add: two_digits_def decimal_small decimal_large)

lemma two_digits_value: "dec_value (two_digits n) = n"
  using dec_value_zeros [of 1 "decimal n"] by (simp add: two_digits_def dec_value_decimal)

lemma num_rem_nat: "num_rem (Num (int s)) (Num 60) = Num (int (s mod 60))"
  by (cases "s = 0") (simp_all add: zmod_int)

lemma formatHMS_nat:
  "formatHMS \<lparr>hours = Num (int h), minutes = Num (int m), seconds = Num (int s)\<rparr> =
     two_digits h @ CHR '':'' # two_digits m @ CHR '':'' # two_digits (s mod 60)"
  by (simp add: formatHMS_def Let_def num_rem_nat padStart_decimal del: num_rem.simps)

subsection \<open>Seconds derived from hours and minutes\<close>

text \<open>
  Outside the hh:mm:ss branch \<open>seconds\<close> is computed from the other two fields. When
  both are numbers, and the products and their sum stay within \<open>max_exact\<close>, it is the
  multiple of 60 that the formula gives.
\<close>

lemma derived_seconds_multiple_of_60:
  assumes "parseDuration raw = Some d"
    and "length (split_on CHR '':'' (preprocess raw)) \<noteq> 3"
    and "hours d = Num h" and "minutes d = Num m"
    and "\<bar>h\<bar> * 3600 + \<bar>m\<bar> * 60 \<le> int max_exact"
  shows "seconds d = Num (h * 3600 + m * 60) \<and> num_rem (seconds d) (Num 60) = Num 0"
  using assms
  unfolding parseDuration_def Let_def
  by (auto simp: hm_duration_def split: if_splits option.splits)

section \<open>Worked inputs\<close>

text \<open>
  Claim C1. \<open>parse("01:30:00")\<close> is the duration with hours 1, minutes 30 and seconds 0,
  and \<open>formatCanonical\<close> of that duration is the string \<open>"01:30:00"\<close>.
\<close>

theorem parse_format_013000:
  "parseDuration ''01:30:00'' = Some \<lparr>hours = Num 1, minutes = Num 30, seconds = Num 0\<rparr>
   \<and> formatHMS \<lparr>hours = Num 1, minutes = Num 30, seconds = Num 0\<rparr> = ''01:30:00''"
  by code_simp

text \<open>
  Claim C5. \<open>parse("3h15")\<close> is the duration with hours 3, minutes 15 and seconds 11700;
  \<open>formatCanonical\<close> of it is \<open>"03:15:00"\<close> and \<open>formatSuggestion\<close> of it is \<open>"3h 15m"\<close>.
\<close>

theorem parse_format_3h15:
  "parseDuration ''3h15'' = Some \<lparr>hours = Num 3, minutes = Num 15, seconds = Num 11700\<rparr>
   \<and> formatHMS \<lparr>hours = Num 3, minutes = Num 15, seconds = Num 11700\<rparr> = ''03:15:00''
   \<and> formatSuggestion \<lparr>hours = Num 3, minutes = Num 15, seconds = Num 11700\<rparr> = ''3h 15m''"
  by code_simp

section \<open>The pair branches do not validate their parts\<close>

text \<open>
  Claim C3. An input that reaches the colon-pair branch is accepted only when its two
  parts are pure integers; extra characters in a part mean rejection.

  The code does not do this. The branch (lines 113-120) sets \<open>valid\<close> as soon as the split
  has two parts and reads each part with \<open>parseInt\<close>, which stops at the first character
  that is not a digit. The input \<open>"3x:15"\<close> has no \<open>h\<close> and no \<open>m\<close>, contains a colon and
  splits in two parts; it is accepted, as 3 hours 15 minutes. The input \<open>"a:b"\<close> is
  accepted too, with NaN in every field.
\<close>

theorem colon_pair_accepts_extra_characters:
  "CHR ''h'' \<notin> set (preprocess ''3x:15'') \<and> CHR ''m'' \<notin> set (preprocess ''3x:15'')
   \<and> split_on CHR '':'' (preprocess ''3x:15'') = [''3x'', ''15'']
   \<and> parseDuration ''3x:15'' = Some \<lparr>hours = Num 3, minutes = Num 15, seconds = Num 11700\<rparr>
   \<and> parseDuration ''a:b'' = Some \<lparr>hours = NaN, minutes = NaN, seconds = NaN\<rparr>"
  by code_simp

text \<open>
  Claim C4. Every duration that \<open>parse\<close> produces by a grammar other than hh:mm:ss has
  \<open>seconds mod 60 = 0\<close>.

  The code does not do this, for the same reason: a part of a colon pair or dot pair
  that does not start with a digit is read as NaN, and then \<open>seconds\<close> is NaN. The input
  \<open>":15"\<close> splits in two parts, so it is not an hh:mm:ss input; it is accepted with
  \<open>seconds = NaN\<close>, and \<open>NaN % 60\<close> is NaN, not 0.
\<close>

theorem colon_pair_seconds_nan:
  "length (split_on CHR '':'' (preprocess '':15'')) = 2
   \<and> parseDuration '':15'' = Some \<lparr>hours = NaN, minutes = Num 15, seconds = NaN\<rparr>
   \<and> num_rem NaN (Num 60) = NaN
   \<and> formatHMS \<lparr>hours = NaN, minutes = Num 15, seconds = NaN\<rparr> = ''NaN:15:NaN''"
  by code_simp

section \<open>The suggestion text is not always parseable\<close>

text \<open>
  Claim C6. For every duration \<open>d\<close> that \<open>parse\<close> produces, \<open>parse(formatSuggestion(d))\<close>
  succeeds and has the hours and minutes of \<open>d\<close> (the \<open>"0h"\<close> display apart).

  The code does not do this. For a duration with hours and minutes both non-zero,
  \<open>formatSuggestion\<close> writes \<open>"3h 15m"\<close>; after normalisation that is \<open>"3h15m"\<close>, which
  contains \<open>h\<close> and so goes to the hours pattern, and the hours pattern has no place for
  the final \<open>m\<close>. The suggestion written back to the field is rejected when it is parsed again.
\<close>

theorem suggestion_of_3h15_rejected:
  "parseDuration ''3h15'' = Some \<lparr>hours = Num 3, minutes = Num 15, seconds = Num 11700\<rparr>
   \<and> formatSuggestion \<lparr>hours = Num 3, minutes = Num 15, seconds = Num 11700\<rparr> = ''3h 15m''
   \<and> preprocess ''3h 15m'' = ''3h15m''
   \<and> parseDuration ''3h 15m'' = None"
  by code_simp

section \<open>The hh:mm:ss grammar\<close>

text \<open>
  Claim C2, as amended. The input is the string after preprocessing, the variable
  \<open>input\<close> of the code. When its split on \<open>:\<close> is three parts \<open>a\<close>, \<open>b\<close>, \<open>d\<close>, each one
  or more digits with a value of at most \<open>2^53\<close>, \<open>parse\<close> returns the duration whose
  hours are the first group, whose minutes are the second group and whose seconds are
  the third group, each with its literal decimal value: nothing is clamped to 0-59 and
  the seconds are not derived from the other two fields.
\<close>

theorem parse_hms_fields_literal:
  assumes "split_on CHR '':'' (preprocess raw) = [a, b, d]"
    and "digits1 a" and "digits1 b" and "digits1 d"
    and "dec_value a \<le> max_exact" and "dec_value b \<le> max_exact"
    and "dec_value d \<le> max_exact"
  shows "parseDuration raw =
           Some \<lparr>hours = Num (int (dec_value a)), minutes = Num (int (dec_value b)),
                 seconds = Num (int (dec_value d))\<rparr>"
  using assms(1-4) by (intro parse_hms_input split_on_join3)

text \<open>
  An instance with leading zeros, surrounding white space and fields above 59.
\<close>

theorem parse_hms_fields_literal_witness:
  "split_on CHR '':'' (preprocess '' 007:75:90 '') = [''007'', ''75'', ''90'']
   \<and> digits1 ''007'' \<and> digits1 ''75'' \<and> digits1 ''90''
   \<and> dec_value ''007'' \<le> max_exact \<and> dec_value ''75'' \<le> max_exact
   \<and> dec_value ''90'' \<le> max_exact
   \<and> parseDuration '' 007:75:90 '' = Some \<lparr>hours = Num 7, minutes = Num 75, seconds = Num 90\<rparr>"
proof -
  have 1: "split_on CHR '':'' (preprocess '' 007:75:90 '') = [''007'', ''75'', ''90'']"
    by code_simp
  have 2: "digits1 ''007''" and 3: "digits1 ''75''" and 4: "digits1 ''90''"
    by code_simp+
  have 5: "dec_value ''007'' = 7" "dec_value ''75'' = 75" "dec_value ''90'' = 90"
    by code_simp+
  have 6: "dec_value ''007'' \<le> max_exact" and 7: "dec_value ''75'' \<le> max_exact"
    and 8: "dec_value ''90'' \<le> max_exact"
    by (simp_all only: 5) (simp_all add: max_exact_def)
  from parse_hms_fields_literal [OF 1 2 3 4 6 7 8] 1 2 3 4 6 7 8 show ?thesis
    by (simp only: 5) simp
qed

text \<open>
  Claim C2 as it is written takes the hours from the second group and the minutes from
  the first. For \<open>"01:30:00"\<close> the groups are \<open>01\<close>, \<open>30\<close> and \<open>00\<close>, and the result is
  not the duration with hours 30 and minutes 1.
\<close>

theorem hms_groups_not_swapped:
  "\<not> (parseDuration ''01:30:00'' =
        Some \<lparr>hours = Num (int (dec_value ''30'')), minutes = Num (int (dec_value ''01'')),
              seconds = Num (int (dec_value ''00''))\<rparr>)"
  by code_simp

text \<open>
  Claim C7. An input (after preprocessing) whose split on \<open>:\<close> has exactly three parts,
  but which is not digits, colon, digits, colon, digits, is rejected: no other branch
  is tried.
\<close>

theorem three_parts_not_hms_rejected:
  assumes three: "length (split_on CHR '':'' (preprocess raw)) = 3"
    and shape: "\<not> hms_shape (preprocess raw)"
  shows "parseDuration raw = None"
proof -
  have "regex_match False re_hms (preprocess raw) = None"
  proof (rule ccontr)
    assume "regex_match False re_hms (preprocess raw) \<noteq> None"
    then obtain m where "regex_match False re_hms (preprocess raw) = Some m"
      by blast
    from re_hms_sound [OF this] obtain a b d where
      "preprocess raw = a @ CHR '':'' # b @ CHR '':'' # d" "digits1 a" "digits1 b" "digits1 d"
      by blast
    then have "hms_shape (preprocess raw)"
      by (simp add: hms_shape_def split_on_hms)
    with shape show False by contradiction
  qed
  with three show ?thesis
    by (simp add: parseDuration_def Let_def)
qed

text \<open>The example of the specification, \<open>"1:2:x"\<close>.\<close>

theorem three_parts_not_hms_rejected_witness:
  "length (split_on CHR '':'' (preprocess ''1:2:x'')) = 3
   \<and> \<not> hms_shape (preprocess ''1:2:x'')
   \<and> parseDuration ''1:2:x'' = None"
proof -
  have 1: "length (split_on CHR '':'' (preprocess ''1:2:x'')) = 3"
    by code_simp
  have 2: "\<not> hms_shape (preprocess ''1:2:x'')"
    by code_simp
  from three_parts_not_hms_rejected [OF 1 2] 1 2 show ?thesis
    by simp
qed

section \<open>The formatters\<close>

text \<open>
  Claim C8. For a duration with integer hours \<open>h\<close> and minutes \<open>m\<close>, \<open>formatSuggestion\<close>
  returns the minutes followed by \<open>m\<close> when \<open>h = 0\<close> and \<open>m > 0\<close>; otherwise it returns the
  hours followed by \<open>h\<close>, and then a space, the minutes and \<open>m\<close> exactly when \<open>m \<noteq> 0\<close>.
  With \<open>h = 0\<close> and \<open>m = 0\<close> the result is \<open>"0h"\<close>.
\<close>

theorem formatSuggestion_rule:
  "formatSuggestion \<lparr>hours = Num h, minutes = Num m, seconds = s\<rparr> =
     (if h = 0 \<and> 0 < m then to_string (Num m) @ ''m''
      else if m \<noteq> 0 then to_string (Num h) @ ''h'' @ '' '' @ to_string (Num m) @ ''m''
      else to_string (Num h) @ ''h'')
   \<and> formatSuggestion \<lparr>hours = Num 0, minutes = Num 0, seconds = s\<rparr> = ''0h''"
  by (simp add: formatSuggestion_def Let_def decimal_0)

text \<open>The four shapes of the result.\<close>

theorem formatSuggestion_rule_witness:
  "formatSuggestion \<lparr>hours = Num 0, minutes = Num 15, seconds = Num 900\<rparr> = ''15m''
   \<and> formatSuggestion \<lparr>hours = Num 3, minutes = Num 15, seconds = Num 11700\<rparr> = ''3h 15m''
   \<and> formatSuggestion \<lparr>hours = Num 3, minutes = Num 0, seconds = Num 10800\<rparr> = ''3h''
   \<and> formatSuggestion \<lparr>hours = Num 0, minutes = Num 0, seconds = Num 0\<rparr> = ''0h''"
proof -
  have 1: "to_string (Num 15) = ''15''" "to_string (Num 3) = ''3''"
    by code_simp+
  show ?thesis
    using formatSuggestion_rule [of 0 15 "Num 900"] formatSuggestion_rule [of 3 15 "Num 11700"]
      formatSuggestion_rule [of 3 0 "Num 10800"] formatSuggestion_rule [of 0 0 "Num 0"]
    by (simp only: 1) (simp add: decimal_0)
qed

text \<open>
  Claim C9. For a duration with natural-number fields of at most \<open>2^53\<close>, \<open>formatCanonical\<close> returns the hours,
  the minutes and \<open>seconds mod 60\<close>, each in decimal and zero-padded to a width of at
  least 2, separated by colons. The result splits on \<open>:\<close> into exactly these three
  groups; each group is digits only and at least 2 wide, and its value is the field's:
  a field above 99 makes its group wider, it is never cut.
\<close>

theorem formatHMS_groups:
  fixes h m s :: nat
  assumes "h \<le> max_exact" and "m \<le> max_exact" and "s \<le> max_exact"
  defines "out \<equiv> formatHMS \<lparr>hours = Num (int h), minutes = Num (int m), seconds = Num (int s)\<rparr>"
  shows "out = two_digits h @ '':'' @ two_digits m @ '':'' @ two_digits (s mod 60)
    \<and> split_on CHR '':'' out = [two_digits h, two_digits m, two_digits (s mod 60)]
    \<and> list_all digits1 (split_on CHR '':'' out)
    \<and> list_all (\<lambda>p. 2 \<le> length p) (split_on CHR '':'' out)
    \<and> map dec_value (split_on CHR '':'' out) = [h, m, s mod 60]"
  unfolding out_def formatHMS_nat
  by (simp add: split_on_hms two_digits_digits1 two_digits_length two_digits_value)

text \<open>Three hours digits, a padded minute, and seconds reduced modulo 60.\<close>

theorem formatHMS_groups_witness:
  "(123::nat) \<le> max_exact \<and> (7::nat) \<le> max_exact \<and> (75::nat) \<le> max_exact
   \<and> formatHMS \<lparr>hours = Num 123, minutes = Num 7, seconds = Num 75\<rparr> = ''123:07:15''
   \<and> split_on CHR '':'' ''123:07:15'' = [''123'', ''07'', ''15'']"
proof -
  have 1: "two_digits 123 = ''123''" "two_digits 7 = ''07''" "two_digits (75 mod 60) = ''15''"
    by code_simp+
  have 2: "(123::nat) \<le> max_exact" and 3: "(7::nat) \<le> max_exact"
    and 4: "(75::nat) \<le> max_exact"
    by (simp_all add: max_exact_def)
  show ?thesis
    using formatHMS_groups [OF 2 3 4] 2 3 4 by (simp only: 1) simp
qed

text \<open>
  Claim C10. For a duration \<open>d\<close> with natural-number fields of at most \<open>2^53\<close>,
  \<open>formatCanonical(d)\<close> is an
  hh:mm:ss input (three parts after preprocessing), \<open>parse\<close> accepts it, and the result
  has the hours and minutes of \<open>d\<close> and the seconds of \<open>d\<close> modulo 60.
\<close>

theorem parse_formatHMS:
  fixes h m s :: nat
  assumes "h \<le> max_exact" and "m \<le> max_exact" and "s \<le> max_exact"
  defines "d \<equiv> \<lparr>hours = Num (int h), minutes = Num (int m), seconds = Num (int s)\<rparr>"
  shows "length (split_on CHR '':'' (preprocess (formatHMS d))) = 3
    \<and> parseDuration (formatHMS d) =
        Some \<lparr>hours = Num (int h), minutes = Num (int m), seconds = Num (int (s mod 60))\<rparr>"
proof -
  let ?out = "two_digits h @ CHR '':'' # two_digits m @ CHR '':'' # two_digits (s mod 60)"
  have out: "formatHMS d = ?out"
    unfolding d_def by (rule formatHMS_nat)
  have "\<forall>c\<in>set ?out. is_digit c \<or> c = CHR '':''"
    using two_digits_digits1 [of h] two_digits_digits1 [of m] two_digits_digits1 [of "s mod 60"]
    by (auto simp: digits1_def list_all_iff)
  then have pre: "preprocess (formatHMS d) = ?out"
    unfolding out by (rule preprocess_plain)
  from parse_hms_input [OF pre two_digits_digits1 two_digits_digits1 two_digits_digits1]
  show ?thesis
    by (simp add: pre split_on_hms two_digits_digits1 two_digits_value)
qed

text \<open>The same duration as above, through both functions.\<close>

theorem parse_formatHMS_witness:
  "(123::nat) \<le> max_exact \<and> (7::nat) \<le> max_exact \<and> (75::nat) \<le> max_exact
   \<and> parseDuration (formatHMS \<lparr>hours = Num 123, minutes = Num 7, seconds = Num 75\<rparr>) =
       Some \<lparr>hours = Num 123, minutes = Num 7, seconds = Num 15\<rparr>"
proof -
  have 1: "(123::nat) \<le> max_exact" and 2: "(7::nat) \<le> max_exact"
    and 3: "(75::nat) \<le> max_exact"
    by (simp_all add: max_exact_def)
  show ?thesis
    using parse_formatHMS [OF 1 2 3] 1 2 3 by simp
qed

end
